theory Spec2Isabelle
  imports Complex_Main
begin

section \<open>Rotator control of gpredict: the data model\<close>

text \<open>
  The development follows \<^verbatim>\<open>src/gtk-rot-ctrl.c\<close>. A \<^verbatim>\<open>gdouble\<close> is modelled
  as a \<^typ>\<open>real\<close>: the angle arithmetic of the controller is read as exact arithmetic,
  rounding, infinities and NaN are outside the model. A nullable pointer is an
  \<^typ>\<open>'a option\<close>, a \<^verbatim>\<open>GSList\<close> is a list.
\<close>

text \<open>The fields of \<^verbatim>\<open>sat_t\<close> that the controller reads.\<close>

record sat_t =
  sat_az :: real
  sat_el :: real
  sat_aos :: real
  sat_los :: real

text \<open>\<^verbatim>\<open>pass_detail_t\<close> and \<^verbatim>\<open>pass_t\<close>: the controller reads the azimuth of a detail
  sample, and the times and azimuths of AOS and LOS of a pass.\<close>

record pass_detail_t =
  detail_time :: real
  detail_az :: real
  detail_el :: real

record pass_t =
  pass_aos :: real
  pass_los :: real
  aos_az :: real
  los_az :: real
  details :: "pass_detail_t list"

datatype rot_az_type = ROT_AZ_TYPE_360 | ROT_AZ_TYPE_180 | ROT_AZ_TYPE_RAW

record rotor_conf_t =
  minaz :: real
  maxaz :: real
  minel :: real
  maxel :: real
  aztype :: rot_az_type
  azstoppos :: real

section \<open>Angle arithmetic\<close>

text \<open>
  The loops \<^verbatim>\<open>while (x > hi) x -= 360;\<close> and \<^verbatim>\<open>while (x < lo) x += 360;\<close> occur in
  \<^verbatim>\<open>is_flipped_pass\<close>, \<^verbatim>\<open>gtk_rot_ctrl_prep_dsp\<close> and \<^verbatim>\<open>gtk_rot_ctrl_make_pos\<close>.
  Over the reals both terminate: the number of whole turns between the value and the
  bound decreases.
\<close>

function wrap_down :: "real \<Rightarrow> real \<Rightarrow> real" where
  "wrap_down hi x = (if x > hi then wrap_down hi (x - 360) else x)"
  by pat_completeness auto

function wrap_up :: "real \<Rightarrow> real \<Rightarrow> real" where
  "wrap_up lo x = (if x < lo then wrap_up lo (x + 360) else x)"
  by pat_completeness auto

lemma turn_down_less: "\<lceil>((x::real) - 360 - hi) / 360\<rceil> < \<lceil>(x - hi) / 360\<rceil>"
proof -
  have "(x - 360 - hi) / 360 = (x - hi) / 360 - 1" by (simp add: field_simps)
  then show ?thesis by (simp only: ceiling_diff_one)
qed

lemma turn_up_less: "\<lceil>(lo - ((x::real) + 360)) / 360\<rceil> < \<lceil>(lo - x) / 360\<rceil>"
proof -
  have "(lo - (x + 360)) / 360 = (lo - x) / 360 - 1" by (simp add: field_simps)
  then show ?thesis by (simp only: ceiling_diff_one)
qed

termination wrap_down
  by (relation "measure (\<lambda>(hi, x). nat \<lceil>(x - hi) / 360\<rceil>)") (simp_all add: turn_down_less)

termination wrap_up
  by (relation "measure (\<lambda>(lo, x). nat \<lceil>(lo - x) / 360\<rceil>)") (simp_all add: turn_up_less)

declare wrap_down.simps [simp del] wrap_up.simps [simp del]

text \<open>\<^verbatim>\<open>gtk_rot_ctrl_make_pos\<close>: add 360 while the angle is negative.\<close>

definition gtk_rot_ctrl_make_pos :: "real \<Rightarrow> real" where
  "gtk_rot_ctrl_make_pos angle = wrap_up 0 angle"

text \<open>\<^verbatim>\<open>gtk_rot_ctrl_smooth\<close>: both tests are made on the unchanged \<^verbatim>\<open>currAz\<close>.\<close>

definition gtk_rot_ctrl_smooth :: "real \<Rightarrow> real \<Rightarrow> real" where
  "gtk_rot_ctrl_smooth lastAz currAz =
     (let res = currAz;
          res = (if lastAz + 170 < currAz then res - 360 else res);
          res = (if lastAz - 170 > currAz then res + 360 else res)
      in res)"

text \<open>\<^verbatim>\<open>gtk_rot_ctrl_ring_absdiff\<close>, with its three statements in order. The third one
  tests an absolute value against \<open>-180\<close>.\<close>

definition gtk_rot_ctrl_ring_absdiff :: "real \<Rightarrow> real \<Rightarrow> real" where
  "gtk_rot_ctrl_ring_absdiff a b =
     (let diff = \<bar>a - b\<bar>;
          diff = (if diff > 180 then \<bar>diff - 360\<bar> else diff);
          diff = (if diff < - 180 then \<bar>diff + 360\<bar> else diff)
      in diff)"

definition is_within_threshold :: "real \<Rightarrow> real \<Rightarrow> real \<Rightarrow> real \<Rightarrow> real \<Rightarrow> bool" where
  "is_within_threshold srcaz srcel dstaz dstel threshold =
     (let diffaz = gtk_rot_ctrl_ring_absdiff srcaz dstaz;
          diffel = gtk_rot_ctrl_ring_absdiff srcel dstel
      in diffaz * diffaz + diffel * diffel < threshold * threshold)"

text \<open>\<^verbatim>\<open>gtk_rot_ctrl_prep_dsp\<close>: the display projection of a target.\<close>

definition gtk_rot_ctrl_prep_dsp :: "real \<Rightarrow> real \<Rightarrow> rot_az_type \<Rightarrow> real \<times> real" where
  "gtk_rot_ctrl_prep_dsp srcaz srcel dspType =
     (case dspType of
        ROT_AZ_TYPE_RAW \<Rightarrow> (srcaz, srcel)
      | ROT_AZ_TYPE_360 \<Rightarrow> (wrap_down 360 (wrap_up 0 srcaz), srcel)
      | ROT_AZ_TYPE_180 \<Rightarrow> (wrap_down 180 (wrap_up (- 180) srcaz), srcel))"

section \<open>Flipped passes\<close>

text \<open>
  The \<^verbatim>\<open>for (i = 1; i < num - 1; i++)\<close> loop of \<^verbatim>\<open>is_flipped_pass\<close>, with its
  variables \<^verbatim>\<open>last_az\<close> and \<^verbatim>\<open>retval\<close>. It runs under \<^verbatim>\<open>num > 1\<close>, so \<open>num - 1\<close>
  does not wrap, and \<open>i\<close> stays below the length of the list: \<^verbatim>\<open>g_slist_nth_data\<close>
  is never out of range.
\<close>

function flipped_loop ::
  "pass_detail_t list \<Rightarrow> real \<Rightarrow> real \<Rightarrow> nat \<Rightarrow> nat \<Rightarrow> real \<times> bool \<Rightarrow> real \<times> bool" where
  "flipped_loop ds min_az max_az num i (last_az, retval) =
     (if i < num - 1 then
        (let caz = detail_az (ds ! i);
             caz = wrap_down max_az caz;
             caz = wrap_up min_az caz;
             retval = (if \<bar>caz - last_az\<bar> > 180 then True else retval)
         in flipped_loop ds min_az max_az num (i + 1) (caz, retval))
      else (last_az, retval))"
  by pat_completeness auto
termination
  by (relation "measure (\<lambda>(ds, min_az, max_az, num, i, st). num - 1 - i)") auto

declare flipped_loop.simps [simp del]

definition is_flipped_pass :: "pass_t \<Rightarrow> rot_az_type \<Rightarrow> real \<Rightarrow> bool" where
  "is_flipped_pass p type stoppos =
     (let last_az = aos_az p;
          num = length (details p);
          (min_az, max_az) =
            (if type = ROT_AZ_TYPE_360 then (0, 360)
             else if type = ROT_AZ_TYPE_180 then (- 180, 180)
             else (0, 0));
          offset = stoppos - min_az;
          min_az = min_az + offset;
          max_az = max_az + offset;
          last_az = wrap_down max_az last_az;
          last_az = wrap_up min_az last_az;
          (last_az, retval) =
            (if num > 1 then flipped_loop (details p) min_az max_az num 1 (last_az, False)
             else (last_az, False));
          caz = los_az p;
          caz = wrap_down max_az caz;
          caz = wrap_up min_az caz;
          retval = (if \<bar>caz - last_az\<bar> > 180 then True else retval)
      in retval)"

text \<open>
  The words of the specification for the same decision: the wrap range of a rotator
  type shifted by the stop offset, the unwrapping of one azimuth onto it, and the test
  that two consecutive values of a sequence are more than 180 degrees apart.
\<close>

definition wrap_range :: "rot_az_type \<Rightarrow> real \<Rightarrow> real \<times> real" where
  "wrap_range type stoppos =
     (case type of
        ROT_AZ_TYPE_360 \<Rightarrow> (0 + (stoppos - 0), 360 + (stoppos - 0))
      | ROT_AZ_TYPE_180 \<Rightarrow> (- 180 + (stoppos - (- 180)), 180 + (stoppos - (- 180)))
      | ROT_AZ_TYPE_RAW \<Rightarrow> (0 + (stoppos - 0), 0 + (stoppos - 0)))"

definition unwrap_az :: "real \<times> real \<Rightarrow> real \<Rightarrow> real" where
  "unwrap_az r x = wrap_up (fst r) (wrap_down (snd r) x)"

fun consecutive_jump :: "real list \<Rightarrow> bool" where
  "consecutive_jump (x # y # zs) = (\<bar>y - x\<bar> > 180 \<or> consecutive_jump (y # zs))"
| "consecutive_jump _ = False"

text \<open>The sequence of the specification: AOS azimuth, every detail sample, LOS azimuth.\<close>

definition all_azimuths :: "pass_t \<Rightarrow> real list" where
  "all_azimuths p = aos_az p # map detail_az (details p) @ [los_az p]"

text \<open>The sequence the loop walks: the first and the last detail sample are left out.\<close>

definition walked_azimuths :: "pass_t \<Rightarrow> real list" where
  "walked_azimuths p = aos_az p # map detail_az (butlast (tl (details p))) @ [los_az p]"

section \<open>The controller\<close>

text \<open>
  The \<^verbatim>\<open>client\<close> member of \<^verbatim>\<open>GtkRotCtrl\<close> is the record shared with the rotctld client
  thread; its mutex, thread handle, socket and timer are left out.
\<close>

record client_t =
  azi_in :: real
  ele_in :: real
  azi_out :: real
  ele_out :: real
  new_trg :: bool
  io_error :: bool
  running :: bool

text \<open>
  The fields of \<^verbatim>\<open>GtkRotCtrl\<close> that the control tick touches. \<open>AzSet\<close> and \<open>ElSet\<close>
  are the values of the two knob widgets, \<open>cur_t\<close> is \<^verbatim>\<open>ctrl->t\<close>, \<open>delay\<close> is the
  \<^verbatim>\<open>guint\<close> cycle period in milliseconds.
\<close>

record GtkRotCtrl =
  AzSet :: real
  ElSet :: real
  target :: "sat_t option"
  pass :: "pass_t option"
  conf :: "rotor_conf_t option"
  cur_t :: real
  delay :: nat
  threshold :: real
  tracking :: bool
  engaged :: bool
  monitor :: bool
  flipped :: bool
  lastTrgAz :: real
  lastTrgEl :: real
  lastTrgSet :: bool
  client :: client_t

text \<open>
  A dereference of a null \<^verbatim>\<open>ctrl->target\<close> or \<^verbatim>\<open>ctrl->conf\<close> ends the program; a
  search loop that never leaves does not return. Both are results of the model.
\<close>

datatype error = NullTarget | NullConf | NoReturn

text \<open>The macro \<^verbatim>\<open>CLAMP(x, low, high)\<close> of glib:
  \<^verbatim>\<open>(((x) > (high)) ? (high) : (((x) < (low)) ? (low) : (x)))\<close>.\<close>

definition CLAMP :: "real \<Rightarrow> real \<Rightarrow> real \<Rightarrow> real" where
  "CLAMP x low high = (if x > high then high else if x < low then low else x)"

text \<open>
  \<^verbatim>\<open>gtk_rot_ctrl_get_path\<close>. The two output parameters are passed in with the values they
  hold at the call and come back in the result, next to the return value.
\<close>

definition gtk_rot_ctrl_get_path ::
  "GtkRotCtrl \<Rightarrow> real \<times> real \<Rightarrow> error + (bool \<times> real \<times> real)" where
  "gtk_rot_ctrl_get_path ctrl pth =
     (case target ctrl of
        None \<Rightarrow> Inl NullTarget
      | Some tg \<Rightarrow>
          (let (gotPath, pthaz, pthel) =
                 (if sat_el tg < 0 then
                    (case pass ctrl of
                       Some p \<Rightarrow>
                         if cur_t ctrl < pass_aos p then (True, aos_az p, 0)
                         else if cur_t ctrl > pass_los p then (True, los_az p, 0)
                         else (False, fst pth, snd pth)
                     | None \<Rightarrow> (False, fst pth, snd pth))
                  else (True, sat_az tg, sat_el tg))
           in if flipped ctrl then
                (case conf ctrl of
                   None \<Rightarrow> Inl NullConf
                 | Some c \<Rightarrow>
                     if maxel c \<ge> 180 then
                       (let pthel = 180 - pthel;
                            pthaz = (if pthaz > 180 then pthaz - 180 else pthaz + 180)
                        in Inr (gotPath, pthaz, pthel))
                     else Inr (gotPath, pthaz, pthel))
              else Inr (gotPath, pthaz, pthel)))"

definition gtk_rot_ctrl_smooth_az :: "GtkRotCtrl \<Rightarrow> real \<Rightarrow> real" where
  "gtk_rot_ctrl_smooth_az ctrl currAz =
     (if lastTrgSet ctrl then gtk_rot_ctrl_smooth (lastTrgAz ctrl) currAz else currAz)"



section \<open>The azimuth profile of a pass\<close>

text \<open>
  The first loop of \<^verbatim>\<open>gtk_rot_ctrl_profile_az\<close>, over the detail samples, with its
  variables \<^verbatim>\<open>minaz\<close> and \<^verbatim>\<open>maxaz\<close>. \<^verbatim>\<open>lastaz\<close> is \<open>None\<close> while \<^verbatim>\<open>firstAz\<close> is true:
  the C variable holds no value yet.
\<close>

fun profile_scan :: "pass_detail_t list \<Rightarrow> real option \<Rightarrow> real \<times> real \<Rightarrow> real \<times> real" where
  "profile_scan [] lastaz (mn, mx) = (mn, mx)"
| "profile_scan (d # ds) lastaz (mn, mx) =
     (let lastaz = (case lastaz of None \<Rightarrow> detail_az d | Some l \<Rightarrow> l);
          smoothaz = gtk_rot_ctrl_smooth lastaz (detail_az d);
          mn = (if smoothaz < mn then smoothaz else mn);
          mx = (if smoothaz > mx then smoothaz else mx)
      in profile_scan ds (Some smoothaz) (mn, mx))"

text \<open>The two \<^verbatim>\<open>while\<close> loops that shift the envelope by whole turns.\<close>

function shift_down :: "real \<Rightarrow> real \<times> real \<Rightarrow> real \<times> real" where
  "shift_down sampleAz (mn, mx) =
     (if sampleAz < mn then shift_down sampleAz (mn - 360, mx - 360) else (mn, mx))"
  by pat_completeness auto
termination
  by (relation "measure (\<lambda>(sampleAz, mn, mx). nat \<lceil>(mn - sampleAz) / 360\<rceil>)")
     (simp_all add: turn_down_less)

function shift_up :: "real \<Rightarrow> real \<times> real \<Rightarrow> real \<times> real" where
  "shift_up sampleAz (mn, mx) =
     (if sampleAz > mx then shift_up sampleAz (mn + 360, mx + 360) else (mn, mx))"
  by pat_completeness auto
termination
  by (relation "measure (\<lambda>(sampleAz, mn, mx). nat \<lceil>(sampleAz - mx) / 360\<rceil>)")
     (simp_all add: turn_up_less)

declare shift_down.simps [simp del] shift_up.simps [simp del]

text \<open>The last loop, over the three offsets, with its variables \<^verbatim>\<open>maxstretch\<close> and
  \<^verbatim>\<open>offset\<close>.\<close>

fun profile_pick ::
  "real list \<Rightarrow> real \<times> real \<Rightarrow> rotor_conf_t \<Rightarrow> real \<times> real \<Rightarrow> real \<times> real" where
  "profile_pick [] (mn, mx) c (maxstretch, offset) = (maxstretch, offset)"
| "profile_pick (off # offs) (mn, mx) c (maxstretch, offset) =
     (let low = mn + off;
          high = mx + off
      in if low > minaz c \<and> high < maxaz c then
           (let stretch = max \<bar>low\<bar> \<bar>high\<bar>
            in if stretch < maxstretch then profile_pick offs (mn, mx) c (stretch, off)
               else profile_pick offs (mn, mx) c (maxstretch, offset))
         else profile_pick offs (mn, mx) c (maxstretch, offset))"

definition gtk_rot_ctrl_profile_az :: "GtkRotCtrl \<Rightarrow> real \<Rightarrow> error + real" where
  "gtk_rot_ctrl_profile_az ctrl sampleAz =
     (case pass ctrl of
        None \<Rightarrow> Inr 0
      | Some p \<Rightarrow>
          (let env = profile_scan (details p) None (10000, - 10000);
               env = shift_down sampleAz env;
               env = shift_up sampleAz env
           in case conf ctrl of
                None \<Rightarrow> Inl NullConf
              | Some c \<Rightarrow> Inr (snd (profile_pick [- 360, 0, 360] env c (10000, 0)))))"










section \<open>The search for a future target\<close>

text \<open>
  Modelled from the spec: the macro \<^verbatim>\<open>secday\<close> comes from a header that is not among the
  sources. Times are in days (the 20 minute horizon of the search is \<open>1/72\<close>), the cycle
  period is in milliseconds, so \<^verbatim>\<open>secday\<close> is the number of seconds of a day.
\<close>

definition secday :: real where
  "secday = 86400"

text \<open>
  \<^verbatim>\<open>predict_calc (sat, qth, t)\<close> is the propagator, an external collaborator: it
  rewrites the working copy of the satellite for the time \<open>t\<close>. It is a parameter.
\<close>

type_synonym predict_calc = "sat_t \<Rightarrow> real \<Rightarrow> sat_t"

text \<open>The value of \<^verbatim>\<open>step_size\<close> when the loop is entered.\<close>

definition future_first_step :: "GtkRotCtrl \<Rightarrow> real" where
  "future_first_step ctrl =
     (let step_size = (case pass ctrl of Some p \<Rightarrow> pass_los p - cur_t ctrl | None \<Rightarrow> 1 / 72);
          step_size = step_size / 2;
          step_size = (if step_size < real (delay ctrl) / 1000 / secday
                       then real (delay ctrl) / 1000 / secday else step_size)
      in step_size)"

text \<open>One run of the body of the \<^verbatim>\<open>while\<close> loop, on \<^verbatim>\<open>time_delta\<close>, \<^verbatim>\<open>step_size\<close> and
  the working copy.\<close>

definition future_body ::
  "predict_calc \<Rightarrow> GtkRotCtrl \<Rightarrow> real \<Rightarrow> real \<Rightarrow> real \<times> real \<times> sat_t
     \<Rightarrow> error + (real \<times> real \<times> sat_t)" where
  "future_body calc ctrl pthaz pthel st =
     (case st of (time_delta, step_size, sat) \<Rightarrow>
        (let sat = calc sat (cur_t ctrl + time_delta + step_size) in
         case (if flipped ctrl then
                 (case conf ctrl of
                    None \<Rightarrow> Inl NullConf
                  | Some c \<Rightarrow>
                      if maxel c \<ge> 180 then
                        (let sat = sat\<lparr>sat_el := 180 - sat_el sat\<rparr>;
                             sat = (if sat_az sat > 180 then sat\<lparr>sat_az := sat_az sat - 180\<rparr>
                                    else sat\<lparr>sat_az := sat_az sat + 180\<rparr>)
                         in Inr sat)
                      else Inr sat)
               else Inr sat)
         of Inl e \<Rightarrow> Inl e
          | Inr sat \<Rightarrow>
              (let time_delta =
                     (if sat_el sat \<ge> 0 \<and> sat_el sat \<le> 180
                         \<and> is_within_threshold pthaz pthel (sat_az sat) (sat_el sat) (threshold ctrl)
                      then time_delta + step_size else time_delta);
                   step_size = step_size / 2
               in Inr (time_delta, step_size, sat))))"

text \<open>The loop. It does not return when the cycle period is 0 and the first step is
  positive: halving a positive real never reaches 0.\<close>

partial_function (option) future_loop ::
  "predict_calc \<Rightarrow> GtkRotCtrl \<Rightarrow> real \<Rightarrow> real \<Rightarrow> real \<times> real \<times> sat_t
     \<Rightarrow> (error + (real \<times> real \<times> sat_t)) option" where
  "future_loop calc ctrl pthaz pthel st =
     (if fst (snd st) > real (delay ctrl) / 1000 / 4 / secday then
        (case future_body calc ctrl pthaz pthel st of
           Inl e \<Rightarrow> Some (Inl e)
         | Inr st' \<Rightarrow> future_loop calc ctrl pthaz pthel st')
      else Some (Inr st))"

definition gtk_rot_ctrl_calc_future_target ::
  "predict_calc \<Rightarrow> GtkRotCtrl \<Rightarrow> real \<Rightarrow> real \<Rightarrow> error + (real \<times> real)" where
  "gtk_rot_ctrl_calc_future_target calc ctrl pthaz pthel =
     (case target ctrl of
        None \<Rightarrow> Inl NullTarget
      | Some tg \<Rightarrow>
          (case future_loop calc ctrl pthaz pthel (0, future_first_step ctrl, tg) of
             None \<Rightarrow> Inl NoReturn
           | Some (Inl e) \<Rightarrow> Inl e
           | Some (Inr (time_delta, step_size, sat)) \<Rightarrow> Inr (sat_az sat, sat_el sat)))"

section \<open>The control tick\<close>

text \<open>
  What \<^verbatim>\<open>rot_ctrl_timeout_cb\<close> hands to the widgets: the display values given to the two
  knobs (none when the knobs are not set), the satellite and target positions given to
  the polar plot, and the arguments of \<^verbatim>\<open>gtk_rot_ctrl_set_read_rotor\<close>.
\<close>

record tick_out =
  knob_set :: "(real \<times> real) option"
  plot_target_pos :: "real \<times> real"
  plot_ctrl_pos :: "real \<times> real"
  read_error :: bool
  read_gotrot :: bool
  read_rot :: "real \<times> real"
  read_polrot :: "real \<times> real"

text \<open>
  The first half of \<^verbatim>\<open>rot_ctrl_timeout_cb\<close>, down to the comment
  \<^verbatim>\<open>// Output Calculated values\<close>: the controller with its smoothing memory updated, the
  target \<^verbatim>\<open>(trgaz, trgel)\<close>, the display values for the knobs and the satellite position
  \<^verbatim>\<open>(polsataz, polsatel)\<close> for the plot. The locals start at \<open>0.0\<close>.
\<close>

definition tick_target ::
  "predict_calc \<Rightarrow> GtkRotCtrl
     \<Rightarrow> error + (GtkRotCtrl \<times> (real \<times> real) \<times> (real \<times> real) option \<times> (real \<times> real))" where
  "tick_target calc ctrl =
     (if \<not> (tracking ctrl \<and> target ctrl \<noteq> None) then
        (let pthaz = AzSet ctrl;
             pthel = ElSet ctrl;
             trgaz = pthaz;
             trgel = pthel;
             ctrl = ctrl\<lparr>lastTrgAz := trgaz, lastTrgEl := trgel, lastTrgSet := True\<rparr>
         in Inr (ctrl, (trgaz, trgel), None, (- 10, - 10)))
      else
        (case gtk_rot_ctrl_get_path ctrl (0, 0) of
           Inl e \<Rightarrow> Inl e
         | Inr (gotPath, pthaz, pthel) \<Rightarrow>
             if gotPath then
               (let pthaz = gtk_rot_ctrl_smooth_az ctrl pthaz;
                    (trgaz, trgel) =
                      (if lastTrgSet ctrl then (lastTrgAz ctrl, lastTrgEl ctrl)
                       else (pthaz, pthel))
                in case (if \<not> is_within_threshold pthaz pthel trgaz trgel (threshold ctrl) then
                           (case (case target ctrl of
                                    None \<Rightarrow> Inl NullTarget
                                  | Some tg \<Rightarrow>
                                      if sat_el tg < 0 then Inr (pthaz, pthel)
                                      else gtk_rot_ctrl_calc_future_target calc ctrl pthaz pthel)
                            of Inl e \<Rightarrow> Inl e
                             | Inr (trgaz, trgel) \<Rightarrow>
                                 Inr (gtk_rot_ctrl_smooth_az ctrl trgaz, trgel))
                         else Inr (trgaz, trgel))
                   of Inl e \<Rightarrow> Inl e
                    | Inr (trgaz, trgel) \<Rightarrow>
                        (let ctrl = ctrl\<lparr>lastTrgAz := trgaz, lastTrgEl := trgel,
                                          lastTrgSet := True\<rparr>
                         in case gtk_rot_ctrl_profile_az ctrl trgaz of
                              Inl e \<Rightarrow> Inl e
                            | Inr offset \<Rightarrow>
                                (let trgaz = trgaz + offset
                                 in case conf ctrl of
                                      None \<Rightarrow> Inl NullConf
                                    | Some c \<Rightarrow>
                                        Inr (ctrl, (trgaz, trgel),
                                             Some (gtk_rot_ctrl_prep_dsp trgaz trgel (aztype c)),
                                             (gtk_rot_ctrl_make_pos pthaz,
                                              gtk_rot_ctrl_make_pos pthel)))))
             else Inr (ctrl, (0, 0), None, (0, 0))))"

text \<open>
  The second half: the block under \<^verbatim>\<open>if (engaged)\<close>. \<open>gotlock\<close> is what
  \<^verbatim>\<open>g_mutex_trylock\<close> returns when it is called. The result is the controller with the
  shared record written, and \<^verbatim>\<open>error\<close>, \<^verbatim>\<open>gotrot\<close>, \<^verbatim>\<open>(rotaz, rotel)\<close> and
  \<^verbatim>\<open>(polrotaz, polrotel)\<close>.
\<close>

definition tick_device ::
  "bool \<Rightarrow> GtkRotCtrl \<Rightarrow> real \<times> real
     \<Rightarrow> GtkRotCtrl \<times> bool \<times> bool \<times> (real \<times> real) \<times> (real \<times> real)" where
  "tick_device gotlock ctrl trg =
     (case conf ctrl of
        None \<Rightarrow> (ctrl, False, False, (0, 0), (- 10, - 10))
      | Some c \<Rightarrow>
          if engaged ctrl then
            (let gotrot = gotlock in
             if gotrot then
               (let error = io_error (client ctrl);
                    rotaz = azi_in (client ctrl);
                    rotel = ele_in (client ctrl);
                    ctrl = ctrl\<lparr>client := (client ctrl)
                              \<lparr>azi_out := CLAMP (fst trg) (minaz c) (maxaz c),
                               ele_out := CLAMP (snd trg) (minel c) (maxel c),
                               new_trg := True\<rparr>\<rparr>
                in (ctrl, error, gotrot, (rotaz, rotel),
                    (if \<not> error then (gtk_rot_ctrl_make_pos rotaz, gtk_rot_ctrl_make_pos rotel)
                     else (- 10, - 10))))
             else (ctrl, False, gotrot, (0, 0), (- 10, - 10)))
          else (ctrl, False, False, (0, 0), (- 10, - 10)))"

definition rot_ctrl_timeout_cb ::
  "predict_calc \<Rightarrow> bool \<Rightarrow> GtkRotCtrl \<Rightarrow> error + (GtkRotCtrl \<times> tick_out)" where
  "rot_ctrl_timeout_cb calc gotlock ctrl =
     (case tick_target calc ctrl of
        Inl e \<Rightarrow> Inl e
      | Inr (ctrl, trg, knobs, polsat) \<Rightarrow>
          (let poltrg = (gtk_rot_ctrl_make_pos (fst trg), gtk_rot_ctrl_make_pos (snd trg));
               (ctrl, error, gotrot, rot, polrot) = tick_device gotlock ctrl trg
           in Inr (ctrl, \<lparr>knob_set = knobs, plot_target_pos = polsat, plot_ctrl_pos = poltrg,
                           read_error = error, read_gotrot = gotrot, read_rot = rot,
                           read_polrot = polrot\<rparr>)))"

text \<open>
  A run of ticks with unchanged inputs: one lock outcome per tick. The knob widgets keep
  their values over the run.
\<close>

fun run_ticks :: "predict_calc \<Rightarrow> bool list \<Rightarrow> GtkRotCtrl \<Rightarrow> error + GtkRotCtrl" where
  "run_ticks calc [] ctrl = Inr ctrl"
| "run_ticks calc (gotlock # locks) ctrl =
     (case rot_ctrl_timeout_cb calc gotlock ctrl of
        Inl e \<Rightarrow> Inl e
      | Inr (ctrl', out) \<Rightarrow> run_ticks calc locks ctrl')"

text \<open>
  The gated situation: the controller tracks a target, a commanded target is
  stored, a path point exists, and the stored target is within the threshold of the
  smoothed path point. A configuration is loaded.
\<close>

definition gated :: "GtkRotCtrl \<Rightarrow> bool" where
  "gated ctrl =
     (tracking ctrl \<and> target ctrl \<noteq> None \<and> lastTrgSet ctrl \<and> conf ctrl \<noteq> None
      \<and> (\<exists>pthaz pthel. gtk_rot_ctrl_get_path ctrl (0, 0) = Inr (True, pthaz, pthel)
            \<and> is_within_threshold (gtk_rot_ctrl_smooth_az ctrl pthaz) pthel
                 (lastTrgAz ctrl) (lastTrgEl ctrl) (threshold ctrl)))"

section \<open>The rotctld client\<close>

text \<open>
  \<^verbatim>\<open>rotctld_socket_rw\<close>. The network is the environment: \<open>written\<close> is what \<^verbatim>\<open>send\<close>
  returns, \<open>received\<close> is \<open>None\<close> when \<^verbatim>\<open>recv\<close> returns \<open>-1\<close> and otherwise the text
  received, as the C string that \<^verbatim>\<open>buffout\<close> then holds. The result is \<open>None\<close> for
  \<^verbatim>\<open>FALSE\<close> and the content of \<^verbatim>\<open>buffout\<close> for \<^verbatim>\<open>TRUE\<close>. A short write is logged only.
  The text received is shorter than the 128 bytes of the buffer: for a reply that fills
  the buffer the C code writes the terminator behind it, which is outside the model.
\<close>

definition rotctld_socket_rw :: "int \<Rightarrow> string option \<Rightarrow> string \<Rightarrow> string option" where
  "rotctld_socket_rw written received buff =
     (if written = - 1 then None
      else (case received of None \<Rightarrow> None | Some buffout \<Rightarrow> Some buffout))"

text \<open>
  \<^verbatim>\<open>g_strsplit (string, "\n", max_tokens)\<close> of glib, for a positive \<^verbatim>\<open>max_tokens\<close>: the
  empty string gives no token; otherwise the string is cut at newlines, and once
  \<^verbatim>\<open>max_tokens - 1\<close> tokens are cut the remainder is the last token.
\<close>

fun split_tokens :: "nat \<Rightarrow> string \<Rightarrow> string list" where
  "split_tokens 0 s = [s]"
| "split_tokens (Suc n) s =
     (if n = 0 \<or> CHR ''\<newline>'' \<notin> set s then [s]
      else takeWhile (\<lambda>c. c \<noteq> CHR ''\<newline>'') s
             # split_tokens n (tl (dropWhile (\<lambda>c. c \<noteq> CHR ''\<newline>'') s)))"

definition g_strsplit :: "string \<Rightarrow> nat \<Rightarrow> string list" where
  "g_strsplit s max_tokens = (if s = [] then [] else split_tokens max_tokens s)"

text \<open>The cast \<^verbatim>\<open>(gint)\<close> of a double: truncation towards zero.\<close>

definition gint_of_double :: "real \<Rightarrow> int" where
  "gint_of_double x = (if 0 \<le> x then \<lfloor>x\<rfloor> else - \<lfloor>- x\<rfloor>)"

text \<open>
  \<^verbatim>\<open>get_pos\<close>. \<^verbatim>\<open>g_strtod\<close> of glib is a parameter. The two output parameters are
  passed in with the values they hold and come back in the result; the caller passes the
  addresses of two locals, so the test for null storage is not modelled.
\<close>

definition get_pos ::
  "(string \<Rightarrow> real) \<Rightarrow> int \<Rightarrow> string option \<Rightarrow> real \<times> real \<Rightarrow> bool \<times> real \<times> real" where
  "get_pos g_strtod written received azel =
     (case rotctld_socket_rw written received ''p\<newline>'' of
        None \<Rightarrow> (False, fst azel, snd azel)
      | Some buffback \<Rightarrow>
          if take 4 buffback = ''RPRT'' then (False, fst azel, snd azel)
          else (case g_strsplit buffback 3 of
                  v0 # v1 # rest \<Rightarrow> (True, g_strtod v0, g_strtod v1)
                | _ \<Rightarrow> (False, fst azel, snd azel)))"

text \<open>
  \<^verbatim>\<open>set_pos\<close>. The command text is \<^verbatim>\<open>"P %.2f %.2f\n"\<close>; what matters here is the answer.
  For a reply of four characters or more, \<^verbatim>\<open>buffback + 4\<close> is the reply after its first
  four characters. For a shorter reply \<^verbatim>\<open>buffback + 4\<close> lies behind the terminator, in the
  part of the local buffer that nothing has written: what \<^verbatim>\<open>g_strtod\<close> reads there is not
  determined by the program, and it is the parameter \<open>stale\<close>.
\<close>

definition set_pos ::
  "(string \<Rightarrow> real) \<Rightarrow> string \<Rightarrow> int \<Rightarrow> string option \<Rightarrow> real \<Rightarrow> real \<Rightarrow> bool" where
  "set_pos g_strtod stale written received az el =
     (case rotctld_socket_rw written received ''P az el'' of
        None \<Rightarrow> False
      | Some buffback \<Rightarrow>
          (let retval = gint_of_double
                 (g_strtod (if length buffback < 4 then stale else drop 4 buffback))
           in if retval \<noteq> 0 then False else True))"

text \<open>
  The locals \<^verbatim>\<open>azi\<close>, \<^verbatim>\<open>ele\<close>, \<^verbatim>\<open>new_trg\<close> and \<^verbatim>\<open>io_error\<close> of \<^verbatim>\<open>rotctld_client_thread\<close>,
  and the steps of the thread. Each block between \<^verbatim>\<open>g_mutex_lock\<close> and
  \<^verbatim>\<open>g_mutex_unlock\<close> is one step; the control tick can take the lock between two of them.
\<close>

record thread_locals =
  l_azi :: real
  l_ele :: real
  l_new_trg :: bool
  l_io_error :: bool

text \<open>The start of the thread, after the socket is open.\<close>

definition client_thread_start :: "client_t \<Rightarrow> client_t \<times> thread_locals" where
  "client_thread_start cl =
     (cl\<lparr>new_trg := False, running := True\<rparr>,
      \<lparr>l_azi = 0, l_ele = 0, l_new_trg = False, l_io_error = False\<rparr>)"

text \<open>\<^verbatim>\<open>io_error = FALSE\<close> and the first locked block: the pending target is fetched.\<close>

definition client_fetch :: "client_t \<Rightarrow> thread_locals \<Rightarrow> thread_locals" where
  "client_fetch cl l =
     (let l = l\<lparr>l_io_error := False\<rparr>
      in if new_trg cl then l\<lparr>l_azi := azi_out cl, l_ele := ele_out cl, l_new_trg := new_trg cl\<rparr>
         else l)"

text \<open>The command: \<open>mon\<close> is \<^verbatim>\<open>ctrl->monitor\<close>, \<open>written\<close> and \<open>received\<close> are the answer of
  the network to this exchange, \<open>stale\<close> is passed on to \<^verbatim>\<open>set_pos\<close>. The second component
  is the position sent, if any.\<close>

definition client_command ::
  "(string \<Rightarrow> real) \<Rightarrow> string \<Rightarrow> bool \<Rightarrow> int \<Rightarrow> string option \<Rightarrow> thread_locals
     \<Rightarrow> thread_locals \<times> (real \<times> real) option" where
  "client_command g_strtod stale mon written received l =
     (if l_new_trg l \<and> \<not> mon then
        (if set_pos g_strtod stale written received (l_azi l) (l_ele l)
         then (l\<lparr>l_new_trg := False\<rparr>, Some (l_azi l, l_ele l))
         else (l\<lparr>l_io_error := True\<rparr>, Some (l_azi l, l_ele l)))
      else (l, None))"

text \<open>The position read, into the same locals \<^verbatim>\<open>azi\<close> and \<^verbatim>\<open>ele\<close>.\<close>

definition client_read ::
  "(string \<Rightarrow> real) \<Rightarrow> int \<Rightarrow> string option \<Rightarrow> thread_locals \<Rightarrow> thread_locals" where
  "client_read g_strtod written received l =
     (case get_pos g_strtod written received (l_azi l, l_ele l) of
        (ok, az, el) \<Rightarrow>
          (let l = l\<lparr>l_azi := az, l_ele := el\<rparr>
           in if \<not> ok then l\<lparr>l_io_error := True\<rparr> else l))"

text \<open>The second locked block: position, pending flag and error flag are published.\<close>

definition client_publish :: "thread_locals \<Rightarrow> client_t \<Rightarrow> client_t" where
  "client_publish l cl =
     cl\<lparr>azi_in := l_azi l, ele_in := l_ele l, new_trg := l_new_trg l, io_error := l_io_error l\<rparr>"

text \<open>
  The words of the specification. A floating value in text: an optional sign, digits with an
  optional fraction, at least one digit, an optional exponent. A reply parses as two
  newline-separated floating values when the text before its first newline and the text
  between its first and second newline are such values. The claimed condition of failure.
\<close>

definition is_digit :: "char \<Rightarrow> bool" where
  "is_digit c = (c \<in> set ''0123456789'')"



definition first_field :: "string \<Rightarrow> string" where
  "first_field r = takeWhile (\<lambda>c. c \<noteq> CHR ''\<newline>'') r"

definition second_field :: "string \<Rightarrow> string" where
  "second_field r =
     takeWhile (\<lambda>c. c \<noteq> CHR ''\<newline>'') (tl (dropWhile (\<lambda>c. c \<noteq> CHR ''\<newline>'') r))"



text \<open>
  A reader of decimal text for the examples, in the place of \<^verbatim>\<open>g_strtod\<close>: after
  leading blanks, the value of the longest prefix made of an optional minus sign, digits
  and an optional fraction, and 0 when there is no such prefix.
\<close>

fun digits_value :: "real \<Rightarrow> string \<Rightarrow> real" where
  "digits_value acc [] = acc"
| "digits_value acc (c # cs) =
     (if is_digit c then digits_value (acc * 10 + real (of_char c - (48::nat))) cs else acc)"

fun fraction_value :: "real \<Rightarrow> string \<Rightarrow> real" where
  "fraction_value scale [] = 0"
| "fraction_value scale (c # cs) =
     (if is_digit c then real (of_char c - (48::nat)) * scale + fraction_value (scale / 10) cs
      else 0)"

definition decimal_value :: "string \<Rightarrow> real" where
  "decimal_value s =
     (let s = dropWhile (\<lambda>c. c = CHR '' '') s;
          neg = (s \<noteq> [] \<and> hd s = CHR ''-'');
          m = (if neg then tl s else s);
          r1 = dropWhile is_digit m;
          v = digits_value 0 m
              + (case r1 of c # cs \<Rightarrow> if c = CHR ''.'' then fraction_value (1 / 10) cs else 0
                 | [] \<Rightarrow> 0)
      in if neg then - v else v)"

section \<open>A tracking state for the examples\<close>

text \<open>
  A satellite that moves in azimuth at 0.1 degrees per second (8640 degrees per day) at a
  constant elevation of 45 degrees, a pass that ends 20 minutes after the current time
  \<open>100\<close>, a rotator with limits \<open>[0, 360]\<close> and \<open>[0, 90]\<close>, a cycle period of one second
  and a threshold of 5 degrees. The last commanded target is 6 degrees behind the
  satellite.
\<close>

definition demo_conf :: rotor_conf_t where
  "demo_conf = \<lparr>minaz = 0, maxaz = 360, minel = 0, maxel = 90,
                 aztype = ROT_AZ_TYPE_360, azstoppos = 0\<rparr>"

definition demo_sat :: sat_t where
  "demo_sat = \<lparr>sat_az = 100, sat_el = 45, sat_aos = 100 - 1 / 144, sat_los = 100 + 1 / 72\<rparr>"

definition demo_calc :: predict_calc where
  "demo_calc sat t' = sat\<lparr>sat_az := 100 + 8640 * (t' - 100), sat_el := 45\<rparr>"

definition demo_pass :: pass_t where
  "demo_pass = \<lparr>pass_aos = 100 - 1 / 144, pass_los = 100 + 1 / 72, aos_az = 40, los_az = 220,
     details = [\<lparr>detail_time = 100 - 1 / 144, detail_az = 40, detail_el = 45\<rparr>,
                \<lparr>detail_time = 100, detail_az = 100, detail_el = 45\<rparr>,
                \<lparr>detail_time = 100 + 1 / 72, detail_az = 220, detail_el = 45\<rparr>]\<rparr>"

definition demo_client :: client_t where
  "demo_client = \<lparr>azi_in = 0, ele_in = 0, azi_out = 0, ele_out = 0,
                   new_trg = False, io_error = False, running = True\<rparr>"

definition demo_ctrl :: GtkRotCtrl where
  "demo_ctrl = \<lparr>AzSet = 94, ElSet = 45, target = Some demo_sat, pass = Some demo_pass,
     conf = Some demo_conf, cur_t = 100, delay = 1000, threshold = 5,
     tracking = True, engaged = True, monitor = False, flipped = False,
     lastTrgAz = 94, lastTrgEl = 45, lastTrgSet = True, client = demo_client\<rparr>"

section \<open>Properties of the angle arithmetic\<close>

lemma ring_absdiff_eq:
  "gtk_rot_ctrl_ring_absdiff a b = (if \<bar>a - b\<bar> > 180 then \<bar>\<bar>a - b\<bar> - 360\<bar> else \<bar>a - b\<bar>)"
proof -
  have "\<not> \<bar>x\<bar> < - 180" for x :: real by arith
  then show ?thesis by (simp add: gtk_rot_ctrl_ring_absdiff_def Let_def)
qed

text \<open>
  What holds of \<^verbatim>\<open>gtk_rot_ctrl_ring_absdiff\<close> for all arguments: it is symmetric, it is
  \<open>\<bar>a - b\<bar>\<close> reflected once through 360 when that exceeds 180, and it is never negative.
  It is at most 180 exactly when the arguments are at most 540 degrees apart.
\<close>

lemma ring_absdiff_facts:
  "gtk_rot_ctrl_ring_absdiff a b = gtk_rot_ctrl_ring_absdiff b a
   \<and> gtk_rot_ctrl_ring_absdiff a b
       = (if \<bar>a - b\<bar> > 180 then \<bar>\<bar>a - b\<bar> - 360\<bar> else \<bar>a - b\<bar>)
   \<and> 0 \<le> gtk_rot_ctrl_ring_absdiff a b
   \<and> (\<bar>a - b\<bar> \<le> 540 \<longrightarrow> gtk_rot_ctrl_ring_absdiff a b \<le> 180)
   \<and> (gtk_rot_ctrl_ring_absdiff a b \<le> 180 \<longrightarrow> \<bar>a - b\<bar> \<le> 540)
   \<and> gtk_rot_ctrl_ring_absdiff 10 350 = 20"
  by (simp add: ring_absdiff_eq abs_minus_commute) (auto simp: abs_if)

text \<open>
  Claim C8 at two azimuths of the controller. The claim, and the comment of the function
  (the minimum difference of two angles, with 360 taken as 0), give a result in
  \<open>[0, 180]\<close> for all angles. The smoothed azimuth \<open>-190\<close> (170 degrees smoothed against
  \<open>-20\<close>) and the azimuth 360 are 550 degrees apart: the code reflects once and returns
  190. The same two directions, written 170 and 360, give 170, the distance on the ring.
\<close>

theorem ring_absdiff_beyond_half_turn:
  "gtk_rot_ctrl_smooth (- 20) 170 = - 190
   \<and> gtk_rot_ctrl_ring_absdiff (- 190) 360 = 190
   \<and> \<not> gtk_rot_ctrl_ring_absdiff (- 190) 360 \<le> 180
   \<and> gtk_rot_ctrl_ring_absdiff (- 190 + 360) 360 = 170"
  by (simp add: ring_absdiff_eq gtk_rot_ctrl_smooth_def)

section \<open>Properties of the flip decision\<close>

lemma consecutive_jump_snoc:
  "xs \<noteq> [] \<Longrightarrow> consecutive_jump (xs @ [b]) = (consecutive_jump xs \<or> \<bar>b - last xs\<bar> > 180)"
  by (induction xs rule: consecutive_jump.induct) auto

lemma flipped_loop_eq:
  "num \<le> length ds \<Longrightarrow>
   flipped_loop ds lo hi num i (l, ret) =
     (last (l # map (\<lambda>d. unwrap_az (lo, hi) (detail_az d)) (take (num - 1 - i) (drop i ds))),
      ret \<or> consecutive_jump
               (l # map (\<lambda>d. unwrap_az (lo, hi) (detail_az d)) (take (num - 1 - i) (drop i ds))))"
proof (induction ds lo hi num i "(l, ret)" arbitrary: l ret rule: flipped_loop.induct)
  case (1 ds lo hi num i l ret)
  show ?case
  proof (cases "i < num - 1")
    case False
    then show ?thesis by (simp add: flipped_loop.simps)
  next
    case True
    then have ilen: "i < length ds" using "1.prems" by simp
    obtain k where k: "num - 1 - i = Suc k" and k': "num - 1 - (i + 1) = k"
      using True by (cases "num - 1 - i") auto
    have split: "take (num - 1 - i) (drop i ds) = ds ! i # take (num - 1 - (i + 1)) (drop (i + 1) ds)"
    proof -
      have "drop i ds = ds ! i # drop (i + 1) ds"
        using ilen by (simp add: Cons_nth_drop_Suc)
      then show ?thesis unfolding k k' by simp
    qed
    let ?c = "wrap_up lo (wrap_down hi (detail_az (ds ! i)))"
    have step: "flipped_loop ds lo hi num i (l, ret) =
          flipped_loop ds lo hi num (i + 1) (?c, (if \<bar>?c - l\<bar> > 180 then True else ret))"
      using True by (subst flipped_loop.simps) (simp add: Let_def)
    have ih: "flipped_loop ds lo hi num (i + 1) (?c, (if \<bar>?c - l\<bar> > 180 then True else ret)) =
       (last (?c # map (\<lambda>d. unwrap_az (lo, hi) (detail_az d)) (take (num - 1 - (i + 1)) (drop (i + 1) ds))),
        (if \<bar>?c - l\<bar> > 180 then True else ret) \<or> consecutive_jump
               (?c # map (\<lambda>d. unwrap_az (lo, hi) (detail_az d)) (take (num - 1 - (i + 1)) (drop (i + 1) ds))))"
      using "1.hyps" [OF True refl refl refl refl "1.prems"] .
    show ?thesis
      unfolding step ih split by (auto simp: unwrap_az_def)
  qed
qed

lemma butlast_tl_take_drop: "butlast (tl ds) = take (length ds - 1 - 1) (drop 1 ds)"
  by (simp add: butlast_conv_take drop_Suc)

lemma flipped_pass_walk:
  "is_flipped_pass p type stoppos
     = consecutive_jump (map (unwrap_az (wrap_range type stoppos)) (walked_azimuths p))"
proof -
  define R where "R = wrap_range type stoppos"
  let ?a = "unwrap_az R (aos_az p)"
  let ?b = "unwrap_az R (los_az p)"
  let ?mid = "map (\<lambda>d. unwrap_az R (detail_az d)) (butlast (tl (details p)))"
  have code: "is_flipped_pass p type stoppos =
       (case (if length (details p) > 1
              then flipped_loop (details p) (fst R) (snd R) (length (details p)) 1 (?a, False)
              else (?a, False))
        of (last_az, retval) \<Rightarrow> (if \<bar>?b - last_az\<bar> > 180 then True else retval))"
    unfolding R_def
    by (cases type) (simp_all add: is_flipped_pass_def wrap_range_def Let_def unwrap_az_def)
  have loop: "(if length (details p) > 1
        then flipped_loop (details p) (fst R) (snd R) (length (details p)) 1 (?a, False)
        else (?a, False)) = (last (?a # ?mid), consecutive_jump (?a # ?mid))"
  proof (cases "length (details p) > 1")
    case True
    then show ?thesis
      by (simp add: flipped_loop_eq butlast_tl_take_drop)
  next
    case False
    then have "butlast (tl (details p)) = []"
      by (cases "details p") (auto simp: butlast_conv_take)
    with False show ?thesis by simp
  qed
  have lhs: "is_flipped_pass p type stoppos
       = (consecutive_jump (?a # ?mid) \<or> \<bar>?b - last (?a # ?mid)\<bar> > 180)"
    unfolding code loop by auto
  have seq: "map (unwrap_az R) (walked_azimuths p) = (?a # ?mid) @ [?b]"
    by (simp add: walked_azimuths_def comp_def)
  have "consecutive_jump ((?a # ?mid) @ [?b])
          = (consecutive_jump (?a # ?mid) \<or> \<bar>?b - last (?a # ?mid)\<bar> > 180)"
    by (rule consecutive_jump_snoc) simp
  then show ?thesis
    unfolding lhs R_def [symmetric] seq by (rule sym)
qed

text \<open>
  When the first detail sample carries the AOS azimuth and the last one the LOS azimuth,
  leaving them out changes nothing: the walk over every sample decides the same.
\<close>

lemma consecutive_jump_dup: "consecutive_jump (x # x # xs) = consecutive_jump (x # xs)"
  by simp

lemma consecutive_jump_map_snoc_dup:
  "consecutive_jump (xs @ [b, b]) = consecutive_jump (xs @ [b])"
  by (induction xs rule: consecutive_jump.induct) auto

lemma is_flipped_pass_all_samples:
  assumes "details p \<noteq> [] \<Longrightarrow> detail_az (hd (details p)) = aos_az p"
      and "details p \<noteq> [] \<Longrightarrow> detail_az (last (details p)) = los_az p"
  shows "is_flipped_pass p type stoppos
     = consecutive_jump (map (unwrap_az (wrap_range type stoppos)) (all_azimuths p))"
proof (cases "details p")
  case Nil
  then show ?thesis by (simp add: flipped_pass_walk walked_azimuths_def all_azimuths_def)
next
  case (Cons d ds)
  show ?thesis
  proof (cases ds rule: rev_cases)
    case Nil
    with Cons assms show ?thesis
      by (simp add: flipped_pass_walk walked_azimuths_def all_azimuths_def)
  next
    case (snoc ms e)
    with Cons assms have a: "detail_az d = aos_az p" and b: "detail_az e = los_az p" by auto
    let ?u = "unwrap_az (wrap_range type stoppos)"
    have "map ?u (all_azimuths p)
            = ?u (aos_az p) # (?u (aos_az p) # map (\<lambda>x. ?u (detail_az x)) ms) @ [?u (los_az p), ?u (los_az p)]"
      using Cons snoc a b by (simp add: all_azimuths_def comp_def)
    moreover have "map ?u (walked_azimuths p)
            = (?u (aos_az p) # map (\<lambda>x. ?u (detail_az x)) ms) @ [?u (los_az p)]"
      using Cons snoc by (simp add: walked_azimuths_def comp_def)
    moreover have "consecutive_jump (?u (aos_az p) # (?u (aos_az p) # map (\<lambda>x. ?u (detail_az x)) ms) @ [?u (los_az p), ?u (los_az p)])
        = consecutive_jump ((?u (aos_az p) # map (\<lambda>x. ?u (detail_az x)) ms) @ [?u (los_az p), ?u (los_az p)])"
      by simp
    moreover have "\<dots> = consecutive_jump ((?u (aos_az p) # map (\<lambda>x. ?u (detail_az x)) ms) @ [?u (los_az p)])"
      by (rule consecutive_jump_map_snoc_dup)
    ultimately show ?thesis
      by (simp only: flipped_pass_walk)
  qed
qed

text \<open>
  Claim C3, as the code has it. \<^verbatim>\<open>is_flipped_pass\<close> returns true exactly when two
  consecutive values differ by more than 180 degrees in the sequence made of the AOS
  azimuth, the detail samples other than the first and the last, and the LOS azimuth,
  each unwrapped onto the wrap range shifted by the stop offset (360 subtracted while
  above the upper end, then 360 added while below the lower end).
\<close>

theorem is_flipped_pass_walked:
  "is_flipped_pass p type stoppos
     = consecutive_jump (map (unwrap_az (wrap_range type stoppos)) (walked_azimuths p))"
  by (rule flipped_pass_walk)

theorem is_flipped_pass_walked_witness:
  "is_flipped_pass \<lparr>pass_aos = 0, pass_los = 1, aos_az = 350, los_az = 30,
      details = [\<lparr>detail_time = 0, detail_az = 350, detail_el = 0\<rparr>,
                 \<lparr>detail_time = 1/4, detail_az = 358, detail_el = 20\<rparr>,
                 \<lparr>detail_time = 1/2, detail_az = 10, detail_el = 30\<rparr>,
                 \<lparr>detail_time = 1, detail_az = 30, detail_el = 0\<rparr>]\<rparr> ROT_AZ_TYPE_360 0"
proof -
  let ?p = "\<lparr>pass_aos = 0, pass_los = 1, aos_az = 350, los_az = 30,
      details = [\<lparr>detail_time = 0, detail_az = 350, detail_el = 0\<rparr>,
                 \<lparr>detail_time = 1/4, detail_az = 358, detail_el = 20\<rparr>,
                 \<lparr>detail_time = 1/2, detail_az = 10, detail_el = 30\<rparr>,
                 \<lparr>detail_time = 1, detail_az = 30, detail_el = 0\<rparr>]\<rparr>"
  have "consecutive_jump (map (unwrap_az (wrap_range ROT_AZ_TYPE_360 0)) (walked_azimuths ?p))"
    by code_simp
  then show ?thesis
    using is_flipped_pass_walked [of ?p ROT_AZ_TYPE_360 0] by (simp only:)
qed

text \<open>
  Claim C3 as it is written walks every detail sample. The loop starts at index 1 and
  stops before the last index: a jump at the first or at the last sample is not seen.
\<close>

theorem is_flipped_pass_all_samples_counterexample:
  "\<not> is_flipped_pass \<lparr>pass_aos = 0, pass_los = 1, aos_az = 10, los_az = 20,
      details = [\<lparr>detail_time = 0, detail_az = 200, detail_el = 0\<rparr>,
                 \<lparr>detail_time = 1/4, detail_az = 12, detail_el = 20\<rparr>,
                 \<lparr>detail_time = 1/2, detail_az = 15, detail_el = 30\<rparr>,
                 \<lparr>detail_time = 1, detail_az = 220, detail_el = 0\<rparr>]\<rparr> ROT_AZ_TYPE_360 0
   \<and> consecutive_jump (map (unwrap_az (wrap_range ROT_AZ_TYPE_360 0))
        (all_azimuths \<lparr>pass_aos = 0, pass_los = 1, aos_az = 10, los_az = 20,
      details = [\<lparr>detail_time = 0, detail_az = 200, detail_el = 0\<rparr>,
                 \<lparr>detail_time = 1/4, detail_az = 12, detail_el = 20\<rparr>,
                 \<lparr>detail_time = 1/2, detail_az = 15, detail_el = 30\<rparr>,
                 \<lparr>detail_time = 1, detail_az = 220, detail_el = 0\<rparr>]\<rparr>))"
  by code_simp
section \<open>Properties of the search for a future target\<close>

lemma future_loop_continue:
  "fst (snd st) > real (delay ctrl) / 1000 / 4 / secday \<Longrightarrow>
   future_loop calc ctrl pthaz pthel st =
     (case future_body calc ctrl pthaz pthel st of
        Inl e \<Rightarrow> Some (Inl e)
      | Inr st' \<Rightarrow> future_loop calc ctrl pthaz pthel st')"
  by (subst future_loop.simps) simp

lemma future_loop_exit:
  "\<not> fst (snd st) > real (delay ctrl) / 1000 / 4 / secday \<Longrightarrow>
   future_loop calc ctrl pthaz pthel st = Some (Inr st)"
  by (subst future_loop.simps) simp

lemma future_body_cases:
  "(\<exists>td' sat'. future_body calc ctrl pthaz pthel (td, step, sat) = Inr (td', step / 2, sat'))
   \<or> (future_body calc ctrl pthaz pthel (td, step, sat) = Inl NullConf
        \<and> flipped ctrl \<and> conf ctrl = None)"
  by (auto simp: future_body_def Let_def split: option.splits)

lemma future_loop_run:
  assumes "step / 2 ^ n \<le> real (delay ctrl) / 1000 / 4 / secday"
      and "\<forall>k<n. real (delay ctrl) / 1000 / 4 / secday < step / 2 ^ k"
  shows "\<exists>r. future_loop calc ctrl pthaz pthel (td, step, sat) = Some r
            \<and> (\<forall>td' step' sat'. r = Inr (td', step', sat') \<longrightarrow> step' = step / 2 ^ n)
            \<and> (\<forall>e. r = Inl e \<longrightarrow> e = NullConf \<and> flipped ctrl \<and> conf ctrl = None)"
  using assms
proof (induction n arbitrary: td step sat)
  case 0
  then show ?case by (subst future_loop.simps) simp
next
  case (Suc n)
  from Suc.prems(2) have gt: "real (delay ctrl) / 1000 / 4 / secday < step" by force
  consider td' sat' where "future_body calc ctrl pthaz pthel (td, step, sat) = Inr (td', step / 2, sat')"
    | "future_body calc ctrl pthaz pthel (td, step, sat) = Inl NullConf" "flipped ctrl" "conf ctrl = None"
    using future_body_cases [of calc ctrl pthaz pthel td step sat] by auto
  then show ?case
  proof cases
    case 1
    have a: "step / 2 / 2 ^ n \<le> real (delay ctrl) / 1000 / 4 / secday"
      using Suc.prems(1) by simp
    have b: "\<forall>k<n. real (delay ctrl) / 1000 / 4 / secday < step / 2 / 2 ^ k"
    proof (intro allI impI)
      fix k assume "k < n"
      then have "Suc k < Suc n" by simp
      with Suc.prems(2) have "real (delay ctrl) / 1000 / 4 / secday < step / 2 ^ Suc k" by blast
      then show "real (delay ctrl) / 1000 / 4 / secday < step / 2 / 2 ^ k" by simp
    qed
    from Suc.IH [OF a b, of td' sat'] obtain r where
      r: "future_loop calc ctrl pthaz pthel (td', step / 2, sat') = Some r"
         "\<forall>td'' step' sat''. r = Inr (td'', step', sat'') \<longrightarrow> step' = step / 2 / 2 ^ n"
         "\<forall>e. r = Inl e \<longrightarrow> e = NullConf \<and> flipped ctrl \<and> conf ctrl = None"
      by blast
    have "future_loop calc ctrl pthaz pthel (td, step, sat) = Some r"
      using gt 1 r(1) by (subst future_loop.simps) simp
    with r(2,3) show ?thesis by simp
  next
    case 2
    have "future_loop calc ctrl pthaz pthel (td, step, sat) = Some (Inl NullConf)"
      using gt 2(1) by (subst future_loop.simps) simp
    with 2 show ?thesis by simp
  qed
qed

lemma halvings_exist:
  assumes "0 < q" and "q < (s::real)"
  shows "\<exists>n. s / 2 ^ n \<le> q \<and> (\<forall>k<n. q < s / 2 ^ k)"
proof -
  have "\<exists>n. s / q < 2 ^ n" by (rule real_arch_pow) simp
  then obtain m where m: "s / q < 2 ^ m" by blast
  then have "s / 2 ^ m \<le> q" using assms by (simp add: field_simps)
  then have ex: "\<exists>n. s / 2 ^ n \<le> q" by blast
  define n where "n = (LEAST n. s / 2 ^ n \<le> q)"
  have "s / 2 ^ n \<le> q" unfolding n_def using ex by (rule LeastI_ex)
  moreover have "\<forall>k<n. q < s / 2 ^ k"
  proof (intro allI impI)
    fix k assume "k < n"
    then have "\<not> s / 2 ^ k \<le> q" unfolding n_def by (rule not_less_Least)
    then show "q < s / 2 ^ k" by simp
  qed
  ultimately show ?thesis by blast
qed

lemma future_first_step_eq:
  "future_first_step ctrl
     = max ((case pass ctrl of Some p \<Rightarrow> pass_los p - cur_t ctrl | None \<Rightarrow> 1 / 72) / 2)
           (real (delay ctrl) / 1000 / secday)"
  by (simp add: future_first_step_def Let_def max_def)

lemma twelve_halvings:
  assumes "(1 / 144) / 2 ^ n \<le> (1 / 345600 :: real)"
      and "\<forall>k<n. (1 / 345600 :: real) < (1 / 144) / 2 ^ k"
  shows "n = 12"
proof -
  have ge: "(2400::real) \<le> 2 ^ n" using assms(1) by (simp add: field_simps)
  have "\<not> n < 12"
  proof
    assume "n < 12"
    then have "n \<le> 11" by simp
    then have "(2::real) ^ n \<le> 2 ^ 11" by (intro power_increasing) simp_all
    with ge show False by simp
  qed
  moreover have "\<not> 12 < n"
  proof
    assume "12 < n"
    with assms(2) have "(1 / 345600 :: real) < (1 / 144) / 2 ^ 12" by blast
    then show False by simp
  qed
  ultimately show ?thesis by simp
qed

text \<open>
  Claim C6, as the code has it. For a positive cycle period the first step is the larger
  of half the time to LOS (half of 20 minutes without a pass) and one full cycle period;
  the loop of \<^verbatim>\<open>gtk_rot_ctrl_calc_future_target\<close> returns, after exactly \<open>n\<close> runs of its body
  when no null configuration is met, where \<open>n\<close> is the number of halvings that bring
  the first step to a quarter of the cycle period or below; \<open>n\<close> is at least 2, and it is
  12 for the 20 minute horizon and a period of one second.
\<close>

theorem future_loop_terminates:
  assumes "0 < delay ctrl"
  shows "future_first_step ctrl
           = max ((case pass ctrl of Some p \<Rightarrow> pass_los p - cur_t ctrl | None \<Rightarrow> 1 / 72) / 2)
                 (real (delay ctrl) / 1000 / secday)
         \<and> (\<exists>n. 2 \<le> n
               \<and> future_first_step ctrl / 2 ^ n \<le> real (delay ctrl) / 1000 / 4 / secday
               \<and> (\<forall>k<n. real (delay ctrl) / 1000 / 4 / secday < future_first_step ctrl / 2 ^ k)
               \<and> (\<exists>r. future_loop calc ctrl pthaz pthel (0, future_first_step ctrl, tg) = Some r
                      \<and> (\<forall>td step sat. r = Inr (td, step, sat)
                             \<longrightarrow> step = future_first_step ctrl / 2 ^ n)
                      \<and> (\<forall>e. r = Inl e \<longrightarrow> e = NullConf \<and> flipped ctrl \<and> conf ctrl = None))
               \<and> (pass ctrl = None \<and> delay ctrl = 1000 \<longrightarrow> n = 12))"
proof -
  define q where "q = real (delay ctrl) / 1000 / 4 / secday"
  define s where "s = future_first_step ctrl"
  have qpos: "0 < q" using assms by (simp add: q_def secday_def)
  have first: "s = max ((case pass ctrl of Some p \<Rightarrow> pass_los p - cur_t ctrl | None \<Rightarrow> 1 / 72) / 2)
                 (real (delay ctrl) / 1000 / secday)"
    unfolding s_def by (rule future_first_step_eq)
  have "real (delay ctrl) / 1000 / secday \<le> s" unfolding first by simp
  moreover have "real (delay ctrl) / 1000 / secday = 4 * q" by (simp add: q_def)
  ultimately have s4: "4 * q \<le> s" by simp
  then have "q < s" using qpos by simp
  from halvings_exist [OF qpos this] obtain n where
    n: "s / 2 ^ n \<le> q" "\<forall>k<n. q < s / 2 ^ k" by blast
  have n2: "2 \<le> n"
  proof (rule ccontr)
    assume "\<not> 2 \<le> n"
    then have "n = 0 \<or> n = 1" by auto
    then show False using n(1) s4 qpos by auto
  qed
  from future_loop_run [of s n ctrl calc pthaz pthel 0 tg] n
  obtain r where r: "future_loop calc ctrl pthaz pthel (0, s, tg) = Some r"
      "\<forall>td step sat. r = Inr (td, step, sat) \<longrightarrow> step = s / 2 ^ n"
      "\<forall>e. r = Inl e \<longrightarrow> e = NullConf \<and> flipped ctrl \<and> conf ctrl = None"
    unfolding q_def by blast
  have ex: "pass ctrl = None \<and> delay ctrl = 1000 \<longrightarrow> n = 12"
  proof
    assume a: "pass ctrl = None \<and> delay ctrl = 1000"
    then have "s = 1 / 144" "q = 1 / 345600"
      by (simp_all add: first q_def secday_def)
    with n show "n = 12" by (intro twelve_halvings) simp_all
  qed
  show ?thesis
    using first n n2 r ex unfolding s_def q_def by blast
qed

theorem future_loop_terminates_witness:
  "0 < delay demo_ctrl
   \<and> future_first_step demo_ctrl = 1 / 144
   \<and> (\<exists>td sat. future_loop demo_calc demo_ctrl 100 45 (0, future_first_step demo_ctrl, demo_sat)
                   = Some (Inr (td, 1 / 144 / 2 ^ 12, sat)))"
proof -
  have d: "0 < delay demo_ctrl" by (simp add: demo_ctrl_def)
  have q: "real (delay demo_ctrl) / 1000 / 4 / secday = 1 / 345600"
    by (simp add: demo_ctrl_def secday_def)
  have nf: "\<not> flipped demo_ctrl" by (simp add: demo_ctrl_def)
  from future_loop_terminates [OF d, of demo_calc 100 45 demo_sat]
  have s: "future_first_step demo_ctrl = 1 / 144"
    by (simp add: demo_ctrl_def demo_pass_def secday_def)
  from future_loop_terminates [OF d, of demo_calc 100 45 demo_sat] obtain n r where
    n: "future_first_step demo_ctrl / 2 ^ n \<le> real (delay demo_ctrl) / 1000 / 4 / secday"
       "\<forall>k<n. real (delay demo_ctrl) / 1000 / 4 / secday < future_first_step demo_ctrl / 2 ^ k"
    and r: "future_loop demo_calc demo_ctrl 100 45 (0, future_first_step demo_ctrl, demo_sat) = Some r"
       "\<forall>td step sat. r = Inr (td, step, sat) \<longrightarrow> step = future_first_step demo_ctrl / 2 ^ n"
       "\<forall>e. r = Inl e \<longrightarrow> e = NullConf \<and> flipped demo_ctrl \<and> conf demo_ctrl = None"
    by blast
  from n have "n = 12" unfolding s q by (rule twelve_halvings)
  moreover from r(3) nf obtain td step sat where "r = Inr (td, step, sat)"
    by (cases r) auto
  ultimately have "r = Inr (td, 1 / 144 / 2 ^ 12, sat)" using r(2) s by simp
  with r(1) d s show ?thesis by blast
qed

text \<open>
  Claim C6 as it is written starts the step at no less than half a cycle period. At LOS
  the first step is a whole cycle period, \<open>1/86400\<close> of a day for one second.
\<close>

theorem future_first_step_counterexample:
  "pass (demo_ctrl\<lparr>cur_t := 100 + 1 / 72\<rparr>) = Some demo_pass
   \<and> pass_los demo_pass - cur_t (demo_ctrl\<lparr>cur_t := 100 + 1 / 72\<rparr>) = 0
   \<and> future_first_step (demo_ctrl\<lparr>cur_t := 100 + 1 / 72\<rparr>) = 1 / 86400
   \<and> future_first_step (demo_ctrl\<lparr>cur_t := 100 + 1 / 72\<rparr>)
        \<noteq> max ((pass_los demo_pass - cur_t (demo_ctrl\<lparr>cur_t := 100 + 1 / 72\<rparr>)) / 2)
              (real (delay (demo_ctrl\<lparr>cur_t := 100 + 1 / 72\<rparr>)) / 1000 / secday / 2)"
  by (simp add: demo_ctrl_def demo_pass_def future_first_step_def secday_def Let_def)

text \<open>
  Claim C1 at a concrete search. The loop returns the position of its last probe, whether
  the probe was accepted or not: here the last probe, 50.1 seconds ahead, is rejected, and
  the target returned is \<open>5 + 5/512\<close> degrees from the path point, outside the threshold
  of 5 degrees. The elevation is 45 degrees throughout.
\<close>

theorem future_target_last_probe:
  "gtk_rot_ctrl_calc_future_target demo_calc demo_ctrl 100 45 = Inr (105 + 5 / 512, 45)
   \<and> \<not> is_within_threshold 100 45 (105 + 5 / 512) 45 (threshold demo_ctrl)"
  by (simp add: gtk_rot_ctrl_calc_future_target_def demo_ctrl_def demo_calc_def demo_sat_def
        demo_pass_def demo_conf_def future_first_step_def future_body_def is_within_threshold_def
        ring_absdiff_eq Let_def secday_def future_loop_continue future_loop_exit)

section \<open>Properties of the azimuth profile\<close>

lemma smooth_self: "gtk_rot_ctrl_smooth a a = a"
  by (simp add: gtk_rot_ctrl_smooth_def)




















section \<open>Properties of the path point\<close>



section \<open>Properties of the control tick\<close>

lemma wrap_up_continue: "x < lo \<Longrightarrow> wrap_up lo x = wrap_up lo (x + 360)"
  by (subst wrap_up.simps) simp

lemma wrap_up_exit: "\<not> x < lo \<Longrightarrow> wrap_up lo x = x"
  by (subst wrap_up.simps) simp

lemma wrap_down_continue: "x > hi \<Longrightarrow> wrap_down hi x = wrap_down hi (x - 360)"
  by (subst wrap_down.simps) simp

lemma wrap_down_exit: "\<not> x > hi \<Longrightarrow> wrap_down hi x = x"
  by (subst wrap_down.simps) simp

lemma tick_target_frame:
  assumes "tick_target calc ctrl = Inr (ctrl1, trg, knobs, polsat)"
  shows "conf ctrl1 = conf ctrl \<and> engaged ctrl1 = engaged ctrl \<and> client ctrl1 = client ctrl"
  using assms
  by (auto simp: tick_target_def Let_def split: if_splits sum.splits prod.splits option.splits)

lemma CLAMP_range: "low \<le> high \<Longrightarrow> low \<le> CLAMP x low high \<and> CLAMP x low high \<le> high"
  by (simp add: CLAMP_def)

lemma tick_device_client:
  "client (fst (tick_device gotlock ctrl trg)) =
     (case conf ctrl of
        None \<Rightarrow> client ctrl
      | Some c \<Rightarrow>
          if engaged ctrl \<and> gotlock then
            (client ctrl)\<lparr>azi_out := CLAMP (fst trg) (minaz c) (maxaz c),
                           ele_out := CLAMP (snd trg) (minel c) (maxel c),
                           new_trg := True\<rparr>
          else client ctrl)"
  by (simp add: tick_device_def Let_def split: option.splits)

text \<open>
  Claim C2, as the code has it. For limits with \<^verbatim>\<open>minaz <= maxaz\<close> and
  \<^verbatim>\<open>minel <= maxel\<close>, a tick that
  returns has written to the shared record only when the controller is engaged, a
  configuration is loaded and the lock was taken; then \<^verbatim>\<open>azi_out\<close> is within
  \<^verbatim>\<open>[minaz, maxaz]\<close>, \<^verbatim>\<open>ele_out\<close> is within \<^verbatim>\<open>[minel, maxel]\<close>, \<^verbatim>\<open>new_trg\<close> is set and
  the other fields are unchanged. In every other case the shared record is unchanged.
\<close>

theorem commanded_position_within_limits:
  assumes "rot_ctrl_timeout_cb calc gotlock ctrl = Inr (ctrl', out)"
      and "\<forall>c. conf ctrl = Some c \<longrightarrow> minaz c \<le> maxaz c \<and> minel c \<le> maxel c"
  shows "case conf ctrl of
           None \<Rightarrow> client ctrl' = client ctrl
         | Some c \<Rightarrow>
             if engaged ctrl \<and> gotlock then
               minaz c \<le> azi_out (client ctrl') \<and> azi_out (client ctrl') \<le> maxaz c
               \<and> minel c \<le> ele_out (client ctrl') \<and> ele_out (client ctrl') \<le> maxel c
               \<and> new_trg (client ctrl')
               \<and> azi_in (client ctrl') = azi_in (client ctrl)
               \<and> ele_in (client ctrl') = ele_in (client ctrl)
               \<and> io_error (client ctrl') = io_error (client ctrl)
               \<and> running (client ctrl') = running (client ctrl)
             else client ctrl' = client ctrl"
proof -
  from assms(1) obtain ctrl1 trg knobs polsat where
    tt: "tick_target calc ctrl = Inr (ctrl1, trg, knobs, polsat)"
    and c': "ctrl' = fst (tick_device gotlock ctrl1 trg)"
    by (auto simp: rot_ctrl_timeout_cb_def Let_def split: sum.splits prod.splits)
  from tick_target_frame [OF tt] have fr:
    "conf ctrl1 = conf ctrl" "engaged ctrl1 = engaged ctrl" "client ctrl1 = client ctrl"
    by simp_all
  show ?thesis
  proof (cases "conf ctrl")
    case None
    then show ?thesis unfolding c' tick_device_client fr by simp
  next
    case (Some c)
    with assms(2) have "minaz c \<le> maxaz c" "minel c \<le> maxel c" by simp_all
    then show ?thesis
      unfolding c' tick_device_client fr using Some
      by (simp add: CLAMP_range)
  qed
qed

lemma knob_tick:
  "rot_ctrl_timeout_cb demo_calc True (demo_ctrl\<lparr>tracking := False, AzSet := 400, ElSet := - 5\<rparr>)
     = Inr (demo_ctrl\<lparr>tracking := False, AzSet := 400, ElSet := - 5,
                       lastTrgAz := 400, lastTrgEl := - 5,
                       client := demo_client\<lparr>azi_out := 360, ele_out := 0, new_trg := True\<rparr>\<rparr>,
            \<lparr>knob_set = None, plot_target_pos = (- 10, - 10), plot_ctrl_pos = (400, 355),
               read_error = False, read_gotrot = True, read_rot = (0, 0),
               read_polrot = (0, 0)\<rparr>)"
  by (simp add: rot_ctrl_timeout_cb_def tick_target_def tick_device_def demo_ctrl_def
        demo_conf_def demo_client_def CLAMP_def gtk_rot_ctrl_make_pos_def Let_def
        wrap_up_continue wrap_up_exit)

theorem commanded_position_within_limits_witness:
  "conf (demo_ctrl\<lparr>tracking := False, AzSet := 400, ElSet := - 5\<rparr>) = Some demo_conf
   \<and> minaz demo_conf \<le> maxaz demo_conf \<and> minel demo_conf \<le> maxel demo_conf
   \<and> (\<exists>ctrl' out.
         rot_ctrl_timeout_cb demo_calc True (demo_ctrl\<lparr>tracking := False, AzSet := 400, ElSet := - 5\<rparr>)
           = Inr (ctrl', out)
       \<and> azi_out (client ctrl') = 360 \<and> ele_out (client ctrl') = 0
       \<and> 0 \<le> azi_out (client ctrl') \<and> azi_out (client ctrl') \<le> 360
       \<and> 0 \<le> ele_out (client ctrl') \<and> ele_out (client ctrl') \<le> 90)"
proof -
  have lim: "\<forall>c. conf (demo_ctrl\<lparr>tracking := False, AzSet := 400, ElSet := - 5\<rparr>) = Some c
        \<longrightarrow> minaz c \<le> maxaz c \<and> minel c \<le> maxel c"
    by (simp add: demo_ctrl_def demo_conf_def)
  from commanded_position_within_limits [OF knob_tick lim]
  have "0 \<le> azi_out (client (demo_ctrl\<lparr>tracking := False, AzSet := 400, ElSet := - 5,
                       lastTrgAz := 400, lastTrgEl := - 5,
                       client := demo_client\<lparr>azi_out := 360, ele_out := 0, new_trg := True\<rparr>\<rparr>))"
    by (simp add: demo_ctrl_def demo_conf_def)
  with knob_tick show ?thesis by (simp add: demo_ctrl_def demo_conf_def)
qed

text \<open>
  Claim C2 as it is written holds of every engaged tick. Nothing orders the limits of a
  configuration: with \<^verbatim>\<open>minaz = 10\<close> and \<^verbatim>\<open>maxaz = 0\<close> and the azimuth knob at 5, the
  engaged tick takes the lock and writes \<^verbatim>\<open>CLAMP (5, 10, 0)\<close>, which is 0, below
  \<^verbatim>\<open>minaz\<close>.
\<close>

theorem commanded_position_reversed_limits_counterexample:
  "rot_ctrl_timeout_cb demo_calc True
      (demo_ctrl\<lparr>tracking := False, AzSet := 5, ElSet := 45,
                  conf := Some (demo_conf\<lparr>minaz := 10, maxaz := 0\<rparr>)\<rparr>)
     = Inr (demo_ctrl\<lparr>tracking := False, AzSet := 5, ElSet := 45,
                       conf := Some (demo_conf\<lparr>minaz := 10, maxaz := 0\<rparr>),
                       lastTrgAz := 5, lastTrgEl := 45,
                       client := demo_client\<lparr>azi_out := 0, ele_out := 45, new_trg := True\<rparr>\<rparr>,
            \<lparr>knob_set = None, plot_target_pos = (- 10, - 10), plot_ctrl_pos = (5, 45),
               read_error = False, read_gotrot = True, read_rot = (0, 0),
               read_polrot = (0, 0)\<rparr>)
   \<and> engaged (demo_ctrl\<lparr>tracking := False, AzSet := 5, ElSet := 45,
                  conf := Some (demo_conf\<lparr>minaz := 10, maxaz := 0\<rparr>)\<rparr>)
   \<and> \<not> minaz (demo_conf\<lparr>minaz := 10, maxaz := 0\<rparr>)
          \<le> azi_out (demo_client\<lparr>azi_out := 0, ele_out := 45, new_trg := True\<rparr>)"
  by (simp add: rot_ctrl_timeout_cb_def tick_target_def tick_device_def demo_ctrl_def
        demo_conf_def demo_client_def CLAMP_def gtk_rot_ctrl_make_pos_def Let_def
        wrap_up_continue wrap_up_exit)

lemma profile_az_returns:
  "conf ctrl = Some c \<Longrightarrow> \<exists>off. gtk_rot_ctrl_profile_az ctrl sampleAz = Inr off"
  by (simp add: gtk_rot_ctrl_profile_az_def Let_def split: option.splits)

lemma profile_az_memory:
  "gtk_rot_ctrl_profile_az (ctrl\<lparr>lastTrgAz := a, lastTrgEl := b, lastTrgSet := s\<rparr>) sampleAz
     = gtk_rot_ctrl_profile_az ctrl sampleAz"
  by (simp add: gtk_rot_ctrl_profile_az_def Let_def split: option.splits)

lemma get_path_client:
  "gtk_rot_ctrl_get_path (ctrl\<lparr>client := cl\<rparr>) pth = gtk_rot_ctrl_get_path ctrl pth"
  by (simp add: gtk_rot_ctrl_get_path_def Let_def split: option.splits)

lemma smooth_az_client:
  "gtk_rot_ctrl_smooth_az (ctrl\<lparr>client := cl\<rparr>) a = gtk_rot_ctrl_smooth_az ctrl a"
  by (simp add: gtk_rot_ctrl_smooth_az_def)

lemma gated_client: "gated (ctrl\<lparr>client := cl\<rparr>) = gated ctrl"
  by (simp add: gated_def get_path_client smooth_az_client)

lemma gated_tick_target:
  assumes "gated ctrl"
  shows "\<exists>trg knobs polsat. tick_target calc ctrl = Inr (ctrl, trg, knobs, polsat)"
proof -
  from assms obtain pthaz pthel c where
    h: "tracking ctrl" "target ctrl \<noteq> None" "lastTrgSet ctrl" "conf ctrl = Some c"
       "gtk_rot_ctrl_get_path ctrl (0, 0) = Inr (True, pthaz, pthel)"
       "is_within_threshold (gtk_rot_ctrl_smooth_az ctrl pthaz) pthel
                 (lastTrgAz ctrl) (lastTrgEl ctrl) (threshold ctrl)"
    by (auto simp: gated_def)
  have same: "ctrl\<lparr>lastTrgAz := lastTrgAz ctrl, lastTrgEl := lastTrgEl ctrl, lastTrgSet := True\<rparr> = ctrl"
    using h(3) by (intro GtkRotCtrl.equality) simp_all
  obtain off where off: "gtk_rot_ctrl_profile_az ctrl (lastTrgAz ctrl) = Inr off"
    using profile_az_returns [OF h(4)] by blast
  show ?thesis
    using h off same by (simp add: tick_target_def Let_def profile_az_memory)
qed


lemma tick_device_frame: "\<exists>cl. fst (tick_device gotlock ctrl trg) = ctrl\<lparr>client := cl\<rparr>"
proof -
  have "fst (tick_device gotlock ctrl trg)
          = ctrl\<lparr>client := client (fst (tick_device gotlock ctrl trg))\<rparr>"
    by (simp add: tick_device_def Let_def split: option.splits)
  then show ?thesis by (rule exI)
qed

lemma gated_tick:
  assumes "gated ctrl"
  shows "\<exists>cl out. rot_ctrl_timeout_cb calc gotlock ctrl = Inr (ctrl\<lparr>client := cl\<rparr>, out)"
proof -
  from gated_tick_target [OF assms] obtain trg knobs polsat where
    tt: "tick_target calc ctrl = Inr (ctrl, trg, knobs, polsat)" by blast
  obtain cl where cl: "fst (tick_device gotlock ctrl trg) = ctrl\<lparr>client := cl\<rparr>"
    using tick_device_frame by blast
  show ?thesis
    using tt cl by (auto simp: rot_ctrl_timeout_cb_def Let_def split: prod.splits)
qed


lemma gated_run:
  assumes "gated ctrl"
  shows "\<exists>cl. run_ticks calc locks ctrl = Inr (ctrl\<lparr>client := cl\<rparr>)"
  using assms
proof (induction locks arbitrary: ctrl)
  case Nil
  show ?case by (intro exI [of _ "client ctrl"]) simp
next
  case (Cons g locks)
  from gated_tick [OF Cons.prems] obtain cl out where
    t: "rot_ctrl_timeout_cb calc g ctrl = Inr (ctrl\<lparr>client := cl\<rparr>, out)" by blast
  have "gated (ctrl\<lparr>client := cl\<rparr>)" using Cons.prems by (simp add: gated_client)
  from Cons.IH [OF this] obtain cl' where
    "run_ticks calc locks (ctrl\<lparr>client := cl\<rparr>) = Inr (ctrl\<lparr>client := cl, client := cl'\<rparr>)" by blast
  with t show ?case by auto
qed

text \<open>
  Claim C5. When the controller tracks, a commanded target is stored and lies within
  the threshold of the smoothed path point, a tick returns and leaves \<^verbatim>\<open>lastTrgAz\<close>,
  \<^verbatim>\<open>lastTrgEl\<close> and \<^verbatim>\<open>lastTrgSet\<close> as they are; so does every run of ticks on the same
  inputs, whatever the lock does.
\<close>

theorem threshold_gating_idempotent:
  assumes "tracking ctrl" and "target ctrl = Some tg" and "lastTrgSet ctrl"
      and "conf ctrl = Some c"
      and "gtk_rot_ctrl_get_path ctrl (0, 0) = Inr (True, pthaz, pthel)"
      and "is_within_threshold (gtk_rot_ctrl_smooth_az ctrl pthaz) pthel
             (lastTrgAz ctrl) (lastTrgEl ctrl) (threshold ctrl)"
  shows "(\<exists>ctrl' out. rot_ctrl_timeout_cb calc gotlock ctrl = Inr (ctrl', out)
            \<and> lastTrgAz ctrl' = lastTrgAz ctrl \<and> lastTrgEl ctrl' = lastTrgEl ctrl
            \<and> lastTrgSet ctrl')
       \<and> (\<exists>ctrl'. run_ticks calc locks ctrl = Inr ctrl'
            \<and> lastTrgAz ctrl' = lastTrgAz ctrl \<and> lastTrgEl ctrl' = lastTrgEl ctrl
            \<and> lastTrgSet ctrl')"
proof -
  have g: "gated ctrl" using assms by (simp add: gated_def)
  from gated_tick [OF g, of calc gotlock] gated_run [OF g, of calc locks] assms(3)
  show ?thesis by auto
qed

theorem threshold_gating_idempotent_witness:
  "tracking (demo_ctrl\<lparr>lastTrgAz := 98\<rparr>)
   \<and> target (demo_ctrl\<lparr>lastTrgAz := 98\<rparr>) = Some demo_sat
   \<and> lastTrgSet (demo_ctrl\<lparr>lastTrgAz := 98\<rparr>)
   \<and> gtk_rot_ctrl_get_path (demo_ctrl\<lparr>lastTrgAz := 98\<rparr>) (0, 0) = Inr (True, 100, 45)
   \<and> is_within_threshold (gtk_rot_ctrl_smooth_az (demo_ctrl\<lparr>lastTrgAz := 98\<rparr>) 100) 45 98 45 5
   \<and> (\<exists>ctrl'. run_ticks demo_calc [True, False, True] (demo_ctrl\<lparr>lastTrgAz := 98\<rparr>) = Inr ctrl'
          \<and> lastTrgAz ctrl' = 98 \<and> lastTrgEl ctrl' = 45 \<and> lastTrgSet ctrl')"
proof -
  let ?c = "demo_ctrl\<lparr>lastTrgAz := 98\<rparr>"
  have h1: "tracking ?c" and h2: "target ?c = Some demo_sat" and h3: "lastTrgSet ?c"
    and h4: "conf ?c = Some demo_conf"
    by (simp_all add: demo_ctrl_def)
  have h5: "gtk_rot_ctrl_get_path ?c (0, 0) = Inr (True, 100, 45)"
    by (simp add: gtk_rot_ctrl_get_path_def demo_ctrl_def demo_sat_def)
  have sm: "gtk_rot_ctrl_smooth_az ?c 100 = 100"
    by (simp add: gtk_rot_ctrl_smooth_az_def gtk_rot_ctrl_smooth_def demo_ctrl_def)
  have w: "is_within_threshold 100 45 98 45 5"
    by (simp add: is_within_threshold_def ring_absdiff_eq)
  have h6: "is_within_threshold (gtk_rot_ctrl_smooth_az ?c 100) 45
             (lastTrgAz ?c) (lastTrgEl ?c) (threshold ?c)"
    using w unfolding sm by (simp add: demo_ctrl_def)
  from threshold_gating_idempotent [OF h1 h2 h3 h4 h5 h6, of demo_calc True "[True, False, True]"]
  have "\<exists>ctrl'. run_ticks demo_calc [True, False, True] ?c = Inr ctrl'
          \<and> lastTrgAz ctrl' = 98 \<and> lastTrgEl ctrl' = 45 \<and> lastTrgSet ctrl'"
    by (simp add: demo_ctrl_def)
  with h1 h2 h3 h5 w sm show ?thesis by simp
qed

section \<open>Properties of the rotctld client\<close>

lemma g_strsplit_three:
  "g_strsplit r 3 =
     (if r = [] then []
      else if CHR ''\<newline>'' \<notin> set r then [r]
      else first_field r # split_tokens 2 (tl (dropWhile (\<lambda>c. c \<noteq> CHR ''\<newline>'') r)))"
  by (simp add: g_strsplit_def first_field_def numeral_3_eq_3 numeral_2_eq_2)

lemma split_tokens_two_hd:
  "\<exists>rest. split_tokens 2 s = takeWhile (\<lambda>c. c \<noteq> CHR ''\<newline>'') s # rest"
proof (cases "CHR ''\<newline>'' \<in> set s")
  case True
  then show ?thesis by (simp add: numeral_2_eq_2)
next
  case False
  then have e: "takeWhile (\<lambda>c. c \<noteq> CHR ''\<newline>'') s = s"
    by auto
  from False have "split_tokens 2 s = [s]" by (simp add: numeral_2_eq_2)
  then show ?thesis by (intro exI [of _ "[]"]) (simp only: e)
qed

lemma get_pos_eq:
  "get_pos g_strtod written received azel =
     (if written = - 1 then (False, fst azel, snd azel)
      else (case received of
              None \<Rightarrow> (False, fst azel, snd azel)
            | Some r \<Rightarrow>
                if take 4 r = ''RPRT'' \<or> CHR ''\<newline>'' \<notin> set r then (False, fst azel, snd azel)
                else (True, g_strtod (first_field r), g_strtod (second_field r))))"
proof (cases "written = - 1")
  case True
  then show ?thesis by (simp add: get_pos_def rotctld_socket_rw_def)
next
  case False
  show ?thesis
  proof (cases received)
    case None
    with False show ?thesis by (simp add: get_pos_def rotctld_socket_rw_def)
  next
    case (Some r)
    show ?thesis
    proof (cases "CHR ''\<newline>'' \<in> set r")
      case True
      then have ne: "r \<noteq> []" by auto
      obtain rest where "split_tokens 2 (tl (dropWhile (\<lambda>c. c \<noteq> CHR ''\<newline>'') r))
           = second_field r # rest"
        using split_tokens_two_hd unfolding second_field_def by blast
      with True ne have "g_strsplit r 3 = first_field r # second_field r # rest"
        by (simp add: g_strsplit_three)
      with False Some True show ?thesis
        by (simp add: get_pos_def rotctld_socket_rw_def)
    next
      case nonl: False
      then have "g_strsplit r 3 = [] \<or> g_strsplit r 3 = [r]"
        by (simp add: g_strsplit_three)
      with False Some nonl show ?thesis
        by (auto simp: get_pos_def rotctld_socket_rw_def)
    qed
  qed
qed




lemma tick_only_sets_pending:
  assumes "rot_ctrl_timeout_cb calc gotlock ctrl = Inr (ctrl', out)"
  shows "(new_trg (client ctrl) \<longrightarrow> new_trg (client ctrl'))
       \<and> (client ctrl' \<noteq> client ctrl \<longrightarrow> engaged ctrl \<and> conf ctrl \<noteq> None \<and> gotlock
              \<and> new_trg (client ctrl'))"
proof -
  from assms obtain ctrl1 trg knobs polsat where
    tt: "tick_target calc ctrl = Inr (ctrl1, trg, knobs, polsat)"
    and c': "ctrl' = fst (tick_device gotlock ctrl1 trg)"
    by (auto simp: rot_ctrl_timeout_cb_def Let_def split: sum.splits prod.splits)
  from tick_target_frame [OF tt] have fr:
    "conf ctrl1 = conf ctrl" "engaged ctrl1 = engaged ctrl" "client ctrl1 = client ctrl"
    by simp_all
  show ?thesis
    unfolding c' tick_device_client fr by (auto split: option.splits)
qed

lemma client_command_clears:
  assumes "client_command g_strtod stale mon written received l = (l', sent)"
      and "l_new_trg l" and "\<not> l_new_trg l'"
  shows "\<not> mon \<and> set_pos g_strtod stale written received (l_azi l) (l_ele l)
         \<and> sent = Some (l_azi l, l_ele l)"
  using assms by (auto simp: client_command_def split: if_splits)

text \<open>
  Claim C9 at a concrete schedule. The thread starts and runs its first locked block,
  where nothing is pending. The control tick, engaged and with the knobs at
  \<open>(120, 30)\<close>, takes the lock and queues that target. The thread sends no command, as
  its local flag is false, reads the position, and in its second locked block writes the
  local flag back: the pending flag is false again, the target is still in the record,
  and neither this round nor the next one of the thread sends it. \<^verbatim>\<open>set_pos\<close> is not
  called, so the schedule is the same whatever \<open>stale\<close> is.
\<close>

theorem queued_target_lost:
  "(let (cl0, l0) = client_thread_start demo_client;
        ctrl0 = demo_ctrl\<lparr>tracking := False, AzSet := 120, ElSet := 30, client := cl0\<rparr>;
        l1 = client_fetch (client ctrl0) l0
    in case rot_ctrl_timeout_cb demo_calc True ctrl0 of
         Inl e \<Rightarrow> False
       | Inr (ctrl1, out) \<Rightarrow>
           (let (l2, sent) = client_command decimal_value stale False 13 (Some ''RPRT 0\<newline>'') l1;
                l3 = client_read decimal_value 2 (Some ''10.00\<newline>20.00\<newline>'') l2;
                cl2 = client_publish l3 (client ctrl1);
                (l5, sent') = client_command decimal_value stale False 13 (Some ''RPRT 0\<newline>'')
                                (client_fetch cl2 l3)
            in new_trg (client ctrl1) \<and> azi_out (client ctrl1) = 120 \<and> ele_out (client ctrl1) = 30
               \<and> sent = None
               \<and> \<not> new_trg cl2 \<and> azi_out cl2 = 120 \<and> ele_out cl2 = 30
               \<and> sent' = None))"
  by (simp add: client_thread_start_def demo_client_def demo_ctrl_def demo_conf_def
        client_fetch_def client_command_def client_read_def client_publish_def
        rot_ctrl_timeout_cb_def tick_target_def tick_device_def CLAMP_def
        gtk_rot_ctrl_make_pos_def wrap_up_exit get_pos_eq first_field_def second_field_def
        Let_def)

end
